theory Spec2Isabelle
  imports Complex_Main "HOL-Library.AList"
begin

section \<open>Python values and errors\<close>

text \<open>
  The script is dynamically typed. The values it stores in a \<open>LineGraph\<close> and
  passes to \<open>lerp\<close> are Python floats, Python ints and \<open>BarbParameters\<close>
  objects. In these values a Python float is a real number, without rounding,
  infinities or \<open>nan\<close>; the doubles themselves are modelled further down, for the
  clamp of the constructor and for the float branch of \<open>lerp\<close>, where a claim
  turns on them. A Python int is an integer. A \<open>BarbParameters\<close> object
  carries its four attributes; \<open>position\<close> is a value, not a real, because the
  clamp in the constructor can leave the int \<open>0\<close> or the int \<open>1\<close> there.
  A \<open>LineGraph\<close> stored as a value inside another \<open>LineGraph\<close> is outside this
  universe.
\<close>

datatype error =
  AttributeError | KeyError | ValueError | TypeError | ZeroDivisionError | OverflowError

datatype val =
    PyFloat real
  | PyInt int
  | BarbParameters (position: val) (barb_length: real) (start_angle: val) (end_angle: val)

text \<open>
  The least magnitude of an int that \<open>float\<close> refuses: it rounds to \<open>2 ^ 1024\<close>,
  beyond the largest double.
\<close>

definition float_int_limit :: int where
  "float_int_limit = 2 ^ 1024 - 2 ^ 970"

text \<open>
  \<open>float(x)\<close>: the float itself, the value of an int (an \<open>OverflowError\<close> when
  the int is too large for a double; the rounding of an int beyond \<open>2 ^ 53\<close> is
  not modelled), a \<open>TypeError\<close> on an object.
\<close>

fun py_float :: "val \<Rightarrow> error + real" where
  "py_float (PyFloat r) = Inr r"
| "py_float (PyInt i) =
     (if \<bar>i\<bar> < float_int_limit then Inr (of_int i) else Inl OverflowError)"
| "py_float (BarbParameters p l s e) = Inl TypeError"

text \<open>
  The number a numeric value denotes; Python compares ints and floats by it. The
  script only ever sorts numbers, so the value on an object is never used.
\<close>

fun num :: "val \<Rightarrow> real" where
  "num (PyFloat r) = r"
| "num (PyInt i) = of_int i"
| "num (BarbParameters p l s e) = 0"

text \<open>
  Python's \<open>a == b\<close> where at least one side is a number: two numbers are
  compared by value, an object equals no number.
\<close>

definition num_eq :: "val \<Rightarrow> val \<Rightarrow> bool" where
  "num_eq a b =
     (case py_float a of
        Inl err \<Rightarrow> False
      | Inr x \<Rightarrow> (case py_float b of Inl err \<Rightarrow> False | Inr y \<Rightarrow> x = y))"

text \<open>Float division: \<open>a / b\<close> raises on a zero divisor.\<close>

definition py_div :: "real \<Rightarrow> real \<Rightarrow> error + real" where
  "py_div a b = (if b = 0 then Inl ZeroDivisionError else Inr (a / b))"

section \<open>BarbParameters and the global lerp\<close>

text \<open>
  \<open>BarbParameters.__init__\<close>: \<open>sorted([0, float(position), 1])[1]\<close> clamps the
  position. Python's sort is stable, as \<open>sort_key\<close> is, so the element taken is
  the float when it lies in \<open>[0, 1]\<close> and one of the two int literals otherwise.
  \<open>length\<close> is coerced by \<open>float\<close>; the two angles are stored as given.
\<close>

definition BarbParameters_init :: "val \<Rightarrow> val \<Rightarrow> val \<Rightarrow> val \<Rightarrow> error + val" where
  "BarbParameters_init position' length' start_angle' end_angle' =
     (case py_float position' of
        Inl err \<Rightarrow> Inl err
      | Inr p \<Rightarrow>
          (case py_float length' of
             Inl err \<Rightarrow> Inl err
           | Inr l \<Rightarrow>
               Inr (BarbParameters (sort_key num [PyInt 0, PyFloat p, PyInt 1] ! 1) l
                      start_angle' end_angle')))"

text \<open>
  The global \<open>lerp(a, b, t)\<close>: float arithmetic when both arguments are floats,
  otherwise \<open>a.lerp(b, t)\<close>. A float or an int has no \<open>lerp\<close> attribute, and
  \<open>BarbParameters.lerp\<close> reads \<open>other.position\<close>, which a number does not have:
  both are an \<open>AttributeError\<close>. \<open>BarbParameters.lerp\<close> blends the four
  attributes in the order position, length, start angle, end angle and hands the
  results to the constructor.
\<close>

fun lerp :: "val \<Rightarrow> val \<Rightarrow> real \<Rightarrow> error + val" where
  "lerp (PyFloat a) (PyFloat b) t = Inr (PyFloat ((b - a) * t + a))"
| "lerp (BarbParameters p l s e) (BarbParameters p' l' s' e') t =
     (case lerp p p' t of
        Inl err \<Rightarrow> Inl err
      | Inr np \<Rightarrow>
          (case lerp (PyFloat l) (PyFloat l') t of
             Inl err \<Rightarrow> Inl err
           | Inr nl \<Rightarrow>
               (case lerp s s' t of
                  Inl err \<Rightarrow> Inl err
                | Inr ns \<Rightarrow>
                    (case lerp e e' t of
                       Inl err \<Rightarrow> Inl err
                     | Inr ne \<Rightarrow> BarbParameters_init np nl ns ne))))"
| "lerp a b t = Inl AttributeError"

section \<open>LineGraph\<close>

text \<open>
  The private dict \<open>__points\<close> is an association list in insertion order with
  one entry per key. \<open>d[k] = v\<close> is \<open>AList.update\<close>: it overwrites the entry of
  an existing key in place and appends a new key at the end.
\<close>

type_synonym LineGraph = "(real \<times> val) list"

text \<open>\<open>d[k]\<close> on a dict: a \<open>KeyError\<close> on a missing key.\<close>

definition dict_get :: "LineGraph \<Rightarrow> real \<Rightarrow> error + val" where
  "dict_get d k = (case map_of d k of None \<Rightarrow> Inl KeyError | Some v \<Rightarrow> Inr v)"

text \<open>The dict comprehension \<open>{float(key): value for key, value in points.items()}\<close>.\<close>

fun float_keys :: "(val \<times> val) list \<Rightarrow> LineGraph \<Rightarrow> error + LineGraph" where
  "float_keys [] acc = Inr acc"
| "float_keys ((key, v) # rest) acc =
     (case py_float key of
        Inl err \<Rightarrow> Inl err
      | Inr k \<Rightarrow> float_keys rest (AList.update k v acc))"

text \<open>
  \<open>LineGraph.__init__\<close>. The argument is \<open>None\<close> when \<open>points\<close> is not a dict
  and the dict's items in order otherwise.
\<close>

definition LineGraph_init :: "(val \<times> val) list option \<Rightarrow> error + LineGraph" where
  "LineGraph_init points =
     (case float_keys (case points of None \<Rightarrow> [] | Some items \<Rightarrow> items) [] of
        Inl err \<Rightarrow> Inl err
      | Inr d \<Rightarrow>
          (let d0 = (if 0 \<notin> fst ` set d then AList.update 0 (PyFloat 0) d else d);
               d1 = (if 1 \<notin> fst ` set d0 then AList.update 1 (PyFloat 0) d0 else d0)
           in Inr d1))"

definition point_locations :: "LineGraph \<Rightarrow> real list" where
  "point_locations g = sort (map fst g)"

text \<open>
  The scan of \<open>LineGraph.get\<close>: \<open>for x in range(1, len(parameters))\<close>, returning
  at the first index whose key is at least the parameter.
\<close>

function get_scan :: "real list \<Rightarrow> real \<Rightarrow> nat \<Rightarrow> (real \<times> real) option" where
  "get_scan parameters parameter x =
     (if x < length parameters then
        (if parameters ! x \<ge> parameter then Some (parameters ! (x - 1), parameters ! x)
         else get_scan parameters parameter (x + 1))
      else None)"
  by pat_completeness auto
termination
  by (relation "measure (\<lambda>(parameters, parameter, x). length parameters - x)") auto

declare get_scan.simps [simp del]

definition LineGraph_get :: "LineGraph \<Rightarrow> val \<Rightarrow> error + val" where
  "LineGraph_get g parameter' =
     (case py_float parameter' of
        Inl err \<Rightarrow> Inl err
      | Inr parameter \<Rightarrow>
          (if parameter \<in> fst ` set g then dict_get g parameter
           else
             (case get_scan (point_locations g) parameter 1 of
                Some (low, high) \<Rightarrow>
                  (case dict_get g low of
                     Inl err \<Rightarrow> Inl err
                   | Inr vlow \<Rightarrow>
                       (case dict_get g high of
                          Inl err \<Rightarrow> Inl err
                        | Inr vhigh \<Rightarrow>
                            (case py_div (parameter - low) (high - low) of
                               Inl err \<Rightarrow> Inl err
                             | Inr t \<Rightarrow> lerp vlow vhigh t)))
              | None \<Rightarrow> Inl KeyError)))"

definition LineGraph_set :: "LineGraph \<Rightarrow> val \<Rightarrow> val \<Rightarrow> error + LineGraph" where
  "LineGraph_set g parameter' v =
     (case py_float parameter' of
        Inl err \<Rightarrow> Inl err
      | Inr parameter \<Rightarrow>
          (if 0 \<le> parameter \<and> parameter \<le> 1 then Inr (AList.update parameter v g)
           else Inl ValueError))"

text \<open>
  The loop of \<open>LineGraph.lerp\<close>: for each point, \<open>self[point]\<close>, then
  \<open>other[point]\<close>, then the blend, then \<open>result[point] = ...\<close>; the first
  exception ends the call.
\<close>

fun lerp_points :: "LineGraph \<Rightarrow> LineGraph \<Rightarrow> real \<Rightarrow> real list \<Rightarrow> LineGraph \<Rightarrow> error + LineGraph" where
  "lerp_points self other t [] result = Inr result"
| "lerp_points self other t (point # points) result =
     (case LineGraph_get self (PyFloat point) of
        Inl err \<Rightarrow> Inl err
      | Inr a \<Rightarrow>
          (case LineGraph_get other (PyFloat point) of
             Inl err \<Rightarrow> Inl err
           | Inr b \<Rightarrow>
               (case lerp a b t of
                  Inl err \<Rightarrow> Inl err
                | Inr v \<Rightarrow>
                    (case LineGraph_set result (PyFloat point) v of
                       Inl err \<Rightarrow> Inl err
                     | Inr result' \<Rightarrow> lerp_points self other t points result'))))"

definition LineGraph_lerp :: "LineGraph \<Rightarrow> LineGraph \<Rightarrow> real \<Rightarrow> error + LineGraph" where
  "LineGraph_lerp self other t =
     (case LineGraph_init None of
        Inl err \<Rightarrow> Inl err
      | Inr result \<Rightarrow>
          lerp_points self other t (point_locations self @ point_locations other) result)"

section \<open>The barb loop of make_barb_curves\<close>

text \<open>
  The host (\<open>maya.cmds\<close>) is outside the script. \<open>cmd.pointPosition\<close> is a
  parameter of the model, a function from a vertex name to its world position.
  The curve, group and mirror commands only consume what the loop computes, so
  the model returns, per selected vertex, the normalised position, the value
  read from the graph and the four points \<open>draw_barb\<close> hands to \<open>cmd.curve\<close>.
\<close>

type_synonym point = "real \<times> real \<times> real"

record barb_curve =
  parameter_position :: real
  barb_info :: val
  curve_points :: "point list"

text \<open>\<open>math.radians(x)\<close>: defined on numbers, a \<open>TypeError\<close> on an object.\<close>

definition radians :: "val \<Rightarrow> error + real" where
  "radians v = (case py_float v of Inl err \<Rightarrow> Inl err | Inr d \<Rightarrow> Inr (d * pi / 180))"

text \<open>
  \<open>draw_barb\<close>, up to the call of \<open>cmd.curve\<close>. Reading \<open>start_angle\<close> from a
  number is an \<open>AttributeError\<close>.
\<close>

fun draw_barb :: "point \<Rightarrow> val \<Rightarrow> error + point list" where
  "draw_barb (px, py, pz) (BarbParameters p l s e) =
     (case radians s of
        Inl err \<Rightarrow> Inl err
      | Inr start_angle' \<Rightarrow>
          (case radians e of
             Inl err \<Rightarrow> Inl err
           | Inr end_angle' \<Rightarrow>
               (let half_length = l / 2;
                    p0 = (px, py, pz);
                    p1 = (sin start_angle' * half_length / 2 + px, 0 + py,
                          cos start_angle' * half_length / 2 + pz);
                    p2 = (sin start_angle' * half_length + px, 0 + py,
                          cos start_angle' * half_length + pz);
                    p3 = (sin end_angle' * half_length + fst p2, 0 + py,
                          cos start_angle' * half_length + snd (snd p2))
                in Inr [p0, p1, p2, p3])))"
| "draw_barb position' v = Inl AttributeError"

text \<open>
  The body of \<open>for i in range(count)\<close>, over the indices still to visit, all
  of them below \<open>count\<close>. \<open>float(i) / max(count - 1, 1)\<close> is a float division
  of an int by an int. The two \<open>print\<close> calls are left out.
\<close>

fun barbs_loop ::
  "(string \<Rightarrow> point) \<Rightarrow> string list \<Rightarrow> LineGraph \<Rightarrow> nat list \<Rightarrow> error + barb_curve list" where
  "barbs_loop pointPosition selection parameters [] = Inr []"
| "barbs_loop pointPosition selection parameters (i # rest) =
     (let count = int (length selection);
          vertex = selection ! i;
          position' = pointPosition vertex
      in case py_div (real i) (of_int (max (count - 1) 1)) of
           Inl err \<Rightarrow> Inl err
         | Inr parameter_position' \<Rightarrow>
             (case LineGraph_get parameters (PyFloat parameter_position') of
                Inl err \<Rightarrow> Inl err
              | Inr barb_info' \<Rightarrow>
                  (case draw_barb position' barb_info' of
                     Inl err \<Rightarrow> Inl err
                   | Inr curve \<Rightarrow>
                       (case barbs_loop pointPosition selection parameters rest of
                          Inl err \<Rightarrow> Inl err
                        | Inr barbs \<Rightarrow>
                            Inr (\<lparr>parameter_position = parameter_position',
                                  barb_info = barb_info',
                                  curve_points = curve\<rparr> # barbs)))))"

definition make_barb_curves ::
  "(string \<Rightarrow> point) \<Rightarrow> string list \<Rightarrow> LineGraph \<Rightarrow> error + barb_curve list" where
  "make_barb_curves pointPosition selection parameters =
     barbs_loop pointPosition selection parameters [0..<length selection]"

section \<open>Invariants of the model\<close>

text \<open>
  What every \<open>LineGraph\<close> object satisfies: the dict has one entry per key, and
  the keys \<open>0.0\<close> and \<open>1.0\<close> are present.
\<close>

definition graph_invar :: "LineGraph \<Rightarrow> bool" where
  "graph_invar g = (distinct (map fst g) \<and> 0 \<in> fst ` set g \<and> 1 \<in> fst ` set g)"

text \<open>The graphs the class can produce: by construction, by \<open>set\<close> and by \<open>lerp\<close>.\<close>

inductive reachable :: "LineGraph \<Rightarrow> bool" where
  init: "LineGraph_init points = Inr g \<Longrightarrow> reachable g"
| set: "reachable g \<Longrightarrow> LineGraph_set g k v = Inr g' \<Longrightarrow> reachable g'"
| lerp: "reachable g1 \<Longrightarrow> reachable g2 \<Longrightarrow> LineGraph_lerp g1 g2 t = Inr g \<Longrightarrow> reachable g"

text \<open>The spec's words for the two neighbours of a position that is not a key.\<close>

definition smallest_key_geq :: "LineGraph \<Rightarrow> real \<Rightarrow> real" where
  "smallest_key_geq g p = Min (set (filter (\<lambda>k. p \<le> k) (map fst g)))"

definition preceding_key :: "LineGraph \<Rightarrow> real \<Rightarrow> real" where
  "preceding_key g h = Max (set (filter (\<lambda>k. k < h) (map fst g)))"


text \<open>
  What a run of the loop resolves: per vertex, the normalised position and the
  value read from the graph.
\<close>

definition resolved_records :: "error + barb_curve list \<Rightarrow> error + (real \<times> val) list" where
  "resolved_records r = map_sum id (map (\<lambda>b. (parameter_position b, barb_info b))) r"

text \<open>The spec's words for the position of anchor \<open>i\<close> of \<open>N\<close>: \<open>i / max(N - 1, 1)\<close>.\<close>

definition normalized_position :: "nat \<Rightarrow> nat \<Rightarrow> real" where
  "normalized_position N i = real i / real (max (N - 1) 1)"

text \<open>
  What one pass of the loop body does for index \<open>i\<close> when nothing raises: the
  position, the value read from the graph at it, and the curve drawn from both.
\<close>

definition resolved_at ::
  "(string \<Rightarrow> point) \<Rightarrow> string list \<Rightarrow> LineGraph \<Rightarrow> nat \<Rightarrow> barb_curve \<Rightarrow> bool" where
  "resolved_at pp sel g i b =
     (parameter_position b = real i / of_int (max (int (length sel) - 1) 1)
      \<and> LineGraph_get g (PyFloat (parameter_position b)) = Inr (barb_info b)
      \<and> draw_barb (pp (sel ! i)) (barb_info b) = Inr (curve_points b))"

section \<open>Python floats with their special values\<close>

text \<open>
  Where a claim turns on it, a Python float is taken as the double it is: a
  real number, an infinity or \<open>nan\<close>. Python's \<open><\<close> and \<open><=\<close> are false as soon
  as one side is \<open>nan\<close>. The sign of a zero is not modelled.
\<close>

datatype double = Finite real | PosInf | NegInf | NaN

fun double_lt :: "double \<Rightarrow> double \<Rightarrow> bool" where
  "double_lt NaN y = False"
| "double_lt x NaN = False"
| "double_lt (Finite a) (Finite b) = (a < b)"
| "double_lt x PosInf = (x \<noteq> PosInf)"
| "double_lt NegInf y = (y \<noteq> NegInf)"
| "double_lt x y = False"

fun double_le :: "double \<Rightarrow> double \<Rightarrow> bool" where
  "double_le NaN y = False"
| "double_le x NaN = False"
| "double_le x y = (x = y \<or> double_lt x y)"

text \<open>
  The elements of the list \<open>[0, float(position), 1]\<close>: an int literal or a
  float. Python compares an int with a float by value.
\<close>

datatype item = IntItem int | FloatItem double

fun item_double :: "item \<Rightarrow> double" where
  "item_double (IntItem i) = Finite (of_int i)"
| "item_double (FloatItem d) = d"

definition item_lt :: "item \<Rightarrow> item \<Rightarrow> bool" where
  "item_lt a b = double_lt (item_double a) (item_double b)"

text \<open>
  \<open>sorted\<close> on a list of fewer than 64 elements, as CPython's \<open>list.sort\<close> runs
  it with \<open><\<close> as its only comparison: take the leading run (strictly
  descending, then reversed, or else non-descending), and insert every later
  element into it by binary search.
\<close>

fun asc_run :: "item list \<Rightarrow> nat" where
  "asc_run (x # y # rest) = (if item_lt y x then 1 else Suc (asc_run (y # rest)))"
| "asc_run xs = length xs"

fun desc_run :: "item list \<Rightarrow> nat" where
  "desc_run (x # y # rest) = (if item_lt y x then Suc (desc_run (y # rest)) else 1)"
| "desc_run xs = length xs"

function bisect :: "item \<Rightarrow> item list \<Rightarrow> nat \<Rightarrow> nat \<Rightarrow> nat" where
  "bisect pivot xs l r =
     (if l < r then
        (let p = l + (r - l) div 2
         in if item_lt pivot (xs ! p) then bisect pivot xs l p
            else bisect pivot xs (p + 1) r)
      else l)"
  by pat_completeness auto
termination
  by (relation "measure (\<lambda>(pivot, xs, l, r). r - l)") auto

declare bisect.simps [simp del]

definition binary_insert :: "item list \<Rightarrow> item \<Rightarrow> item list" where
  "binary_insert xs pivot =
     (let l = bisect pivot xs 0 (length xs) in take l xs @ pivot # drop l xs)"

definition py_sorted :: "item list \<Rightarrow> item list" where
  "py_sorted xs =
     (case xs of
        x # y # rest \<Rightarrow>
          (if item_lt y x
           then foldl binary_insert (rev (take (desc_run xs) xs)) (drop (desc_run xs) xs)
           else foldl binary_insert (take (asc_run xs) xs) (drop (asc_run xs) xs))
      | _ \<Rightarrow> xs)"

text \<open>Line 117 of the script on a float: \<open>sorted([0, x, 1])[1]\<close>.\<close>

definition clamp_slot :: "double \<Rightarrow> item" where
  "clamp_slot x = py_sorted [IntItem 0, FloatItem x, IntItem 1] ! 1"









text \<open>
  The value of the model that an element stands for; \<open>nan\<close> and the infinities
  have none.
\<close>

fun item_val :: "item \<Rightarrow> val option" where
  "item_val (IntItem i) = Some (PyInt i)"
| "item_val (FloatItem (Finite r)) = Some (PyFloat r)"
| "item_val (FloatItem d) = None"

section \<open>BarbParameters: the clamp\<close>

lemma small_int_below_limit [simp]: "i \<le> 1000 \<Longrightarrow> i < float_int_limit"
proof -
  have "(2::int) ^ 970 * 2 ^ 54 = 2 ^ 1024" by (simp add: power_add [symmetric])
  moreover have "(1000::int) < 2 ^ 970 * (2 ^ 54 - 1)"
  proof -
    have "(1000::int) < 2 ^ 10" by simp
    also have "\<dots> \<le> 2 ^ 970" by (rule power_increasing) simp_all
    also have "\<dots> \<le> 2 ^ 970 * (2 ^ 54 - 1)" by simp
    finally show ?thesis .
  qed
  ultimately have "(1000::int) < float_int_limit"
    by (simp add: float_int_limit_def algebra_simps)
  then show "i \<le> 1000 \<Longrightarrow> i < float_int_limit" by simp
qed

lemma clamp_cases:
  "sort_key num [PyInt 0, PyFloat p, PyInt 1] ! 1 =
     (if p < 0 then PyInt 0 else if p \<le> 1 then PyFloat p else PyInt 1)"
  by simp

lemma init_numeric:
  assumes "py_float pos = Inr p" and "py_float len = Inr l"
  shows "BarbParameters_init pos len s e =
           Inr (BarbParameters
                  (if p < 0 then PyInt 0 else if p \<le> 1 then PyFloat p else PyInt 1) l s e)"
  using assms by (simp add: BarbParameters_init_def)

lemma clamp_slot_cases:
  "clamp_slot x =
     (if double_lt x (Finite 0) then IntItem 0
      else if double_lt (Finite 1) x then IntItem 1 else FloatItem x)"
  by (cases x) (simp_all add: clamp_slot_def py_sorted_def item_lt_def binary_insert_def
      bisect.simps Let_def)

lemma clamp_slot_finite:
  "item_val (clamp_slot (Finite p)) = Some (sort_key num [PyInt 0, PyFloat p, PyInt 1] ! 1)"
  by (simp add: clamp_slot_cases)

text \<open>
  C7, amended. For every position that \<open>float\<close> converts, without raising, to a
  number other than \<open>nan\<close>, the constructor stores the min/max clamp of that number
  \<open>p\<close> into \<open>[0, 1]\<close>: the int \<open>0\<close> (equal to \<open>0.0\<close>) below 0, the int \<open>1\<close> (equal
  to \<open>1.0\<close>) above 1, and \<open>p\<close> itself, unchanged, inside the interval, so the stored
  position is in \<open>[0, 1]\<close>. It is the element that \<open>sorted([0, p, 1])[1]\<close> takes
  on the double \<open>p\<close>.
\<close>

theorem BarbParameters_init_clamps_position:
  assumes "py_float pos = Inr p" and "py_float len = Inr l"
  shows "\<exists>q. BarbParameters_init pos len s e = Inr (BarbParameters q l s e)
           \<and> py_float q = Inr (max 0 (min 1 p))
           \<and> (p < 0 \<longrightarrow> q = PyInt 0 \<and> num_eq q (PyFloat 0))
           \<and> (1 < p \<longrightarrow> q = PyInt 1 \<and> num_eq q (PyFloat 1))
           \<and> (0 \<le> p \<and> p \<le> 1 \<longrightarrow> q = PyFloat p)
           \<and> 0 \<le> num q \<and> num q \<le> 1
           \<and> item_val (clamp_slot (Finite p)) = Some q"
  using init_numeric [OF assms, of s e] by (auto simp: num_eq_def clamp_slot_cases)

text \<open>The positions \<open>-0.5\<close>, \<open>1.5\<close> and \<open>0.25\<close>.\<close>

theorem BarbParameters_init_clamps_position_witness:
  "(\<exists>q. BarbParameters_init (PyFloat (- 1 / 2)) (PyInt 1) (PyInt 0) (PyInt 10)
            = Inr (BarbParameters q 1 (PyInt 0) (PyInt 10)) \<and> num_eq q (PyFloat 0))
   \<and> (\<exists>q. BarbParameters_init (PyFloat (3 / 2)) (PyInt 1) (PyInt 0) (PyInt 10)
            = Inr (BarbParameters q 1 (PyInt 0) (PyInt 10)) \<and> num_eq q (PyFloat 1))
   \<and> (\<exists>q. BarbParameters_init (PyFloat (1 / 4)) (PyInt 1) (PyInt 0) (PyInt 10)
            = Inr (BarbParameters q 1 (PyInt 0) (PyInt 10)) \<and> q = PyFloat (1 / 4))"
  using BarbParameters_init_clamps_position
          [of "PyFloat (- 1 / 2)" "- 1 / 2" "PyInt 1" 1 "PyInt 0" "PyInt 10"]
        BarbParameters_init_clamps_position
          [of "PyFloat (3 / 2)" "3 / 2" "PyInt 1" 1 "PyInt 0" "PyInt 10"]
        BarbParameters_init_clamps_position
          [of "PyFloat (1 / 4)" "1 / 4" "PyInt 1" 1 "PyInt 0" "PyInt 10"]
  by simp

text \<open>
  C7 as stated fails. A position given as the int \<open>10 ** 400\<close> is above 1, and
  the constructor raises an \<open>OverflowError\<close> instead of storing 1. On the float
  \<open>nan\<close> every comparison of the sort is false, the list stays as it is, and the
  element stored is \<open>nan\<close>, which is not in \<open>[0, 1]\<close>.
\<close>

theorem BarbParameters_init_unclamped:
  "BarbParameters_init (PyInt (10 ^ 400)) (PyFloat 1) (PyFloat 0) (PyFloat 10)
     = Inl OverflowError
   \<and> clamp_slot NaN = FloatItem NaN
   \<and> \<not> (double_le (Finite 0) (item_double (clamp_slot NaN))
          \<and> double_le (item_double (clamp_slot NaN)) (Finite 1))"
  by (simp add: BarbParameters_init_def float_int_limit_def clamp_slot_cases)

section \<open>BarbParameters: lerp\<close>

lemma lerp_floats:
  "lerp (BarbParameters (PyFloat p1) l1 (PyFloat s1) (PyFloat e1))
        (BarbParameters (PyFloat p2) l2 (PyFloat s2) (PyFloat e2)) t =
   BarbParameters_init (PyFloat ((p2 - p1) * t + p1)) (PyFloat ((l2 - l1) * t + l1))
     (PyFloat ((s2 - s1) * t + s1)) (PyFloat ((e2 - e1) * t + e1))"
  by simp

lemma blend_in_unit:
  fixes a b t :: real
  assumes "0 \<le> a" "a \<le> 1" "0 \<le> b" "b \<le> 1" "0 \<le> t" "t \<le> 1"
  shows "0 \<le> (b - a) * t + a \<and> (b - a) * t + a \<le> 1"
proof -
  have eq: "(b - a) * t + a = (1 - t) * a + t * b" by (simp add: algebra_simps)
  have "0 \<le> (1 - t) * a + t * b" using assms by simp
  moreover have "(1 - t) * a \<le> (1 - t) * 1" using assms by (intro mult_left_mono) auto
  moreover have "t * b \<le> t * 1" using assms by (intro mult_left_mono) auto
  ultimately show ?thesis unfolding eq by (simp add: algebra_simps)
qed

text \<open>
  C8, amended. \<open>BarbParameters.lerp\<close> on two records whose stored fields are
  floats blends each of the four fields by the scalar formula \<open>(b - a) * t + a\<close>
  and passes the four results to the constructor, which returns a new record; for
  positions and \<open>t\<close> in \<open>[0, 1]\<close> the blended position is stored as it is.
\<close>

theorem BarbParameters_lerp_fieldwise:
  "lerp (BarbParameters (PyFloat p1) l1 (PyFloat s1) (PyFloat e1))
        (BarbParameters (PyFloat p2) l2 (PyFloat s2) (PyFloat e2)) t =
     BarbParameters_init (PyFloat ((p2 - p1) * t + p1)) (PyFloat ((l2 - l1) * t + l1))
       (PyFloat ((s2 - s1) * t + s1)) (PyFloat ((e2 - e1) * t + e1))
   \<and> (0 \<le> p1 \<and> p1 \<le> 1 \<and> 0 \<le> p2 \<and> p2 \<le> 1 \<and> 0 \<le> t \<and> t \<le> 1 \<longrightarrow>
        lerp (BarbParameters (PyFloat p1) l1 (PyFloat s1) (PyFloat e1))
             (BarbParameters (PyFloat p2) l2 (PyFloat s2) (PyFloat e2)) t =
        Inr (BarbParameters (PyFloat ((p2 - p1) * t + p1)) ((l2 - l1) * t + l1)
               (PyFloat ((s2 - s1) * t + s1)) (PyFloat ((e2 - e1) * t + e1))))"
proof (intro conjI impI)
  assume h: "0 \<le> p1 \<and> p1 \<le> 1 \<and> 0 \<le> p2 \<and> p2 \<le> 1 \<and> 0 \<le> t \<and> t \<le> 1"
  then have "0 \<le> (p2 - p1) * t + p1 \<and> (p2 - p1) * t + p1 \<le> 1"
    using blend_in_unit [of p1 p2 t] by simp
  then show "lerp (BarbParameters (PyFloat p1) l1 (PyFloat s1) (PyFloat e1))
             (BarbParameters (PyFloat p2) l2 (PyFloat s2) (PyFloat e2)) t =
        Inr (BarbParameters (PyFloat ((p2 - p1) * t + p1)) ((l2 - l1) * t + l1)
               (PyFloat ((s2 - s1) * t + s1)) (PyFloat ((e2 - e1) * t + e1)))"
    by (simp add: lerp_floats init_numeric [of _ "(p2 - p1) * t + p1" _ "(l2 - l1) * t + l1"])
qed (rule lerp_floats)

text \<open>
  Scenario C: \<open>A(position=0, length=1, start=0.0, end=10.0)\<close> and
  \<open>B(position=1, length=3, start=20.0, end=30.0)\<close> blended at \<open>0.5\<close>.
\<close>

theorem BarbParameters_lerp_fieldwise_witness:
  "BarbParameters_init (PyInt 0) (PyInt 1) (PyFloat 0) (PyFloat 10)
     = Inr (BarbParameters (PyFloat 0) 1 (PyFloat 0) (PyFloat 10))
   \<and> BarbParameters_init (PyInt 1) (PyInt 3) (PyFloat 20) (PyFloat 30)
     = Inr (BarbParameters (PyFloat 1) 3 (PyFloat 20) (PyFloat 30))
   \<and> lerp (BarbParameters (PyFloat 0) 1 (PyFloat 0) (PyFloat 10))
          (BarbParameters (PyFloat 1) 3 (PyFloat 20) (PyFloat 30)) (1 / 2)
     = Inr (BarbParameters (PyFloat (1 / 2)) 2 (PyFloat 10) (PyFloat 20))"
  using BarbParameters_lerp_fieldwise [of 0 1 0 10 1 3 20 30 "1 / 2"]
  by (simp add: BarbParameters_init_def)

text \<open>
  C8 as stated fails. With the angles of scenario C written as ints the call
  raises an \<open>AttributeError\<close>; so does the call on a record built from the
  floats \<open>(-0.5, 1.0, 0.0, 10.0)\<close>, whose clamped position is the int \<open>0\<close>.
\<close>

theorem BarbParameters_lerp_raises:
  "BarbParameters_init (PyInt 0) (PyInt 1) (PyInt 0) (PyInt 10)
     = Inr (BarbParameters (PyFloat 0) 1 (PyInt 0) (PyInt 10))
   \<and> BarbParameters_init (PyInt 1) (PyInt 3) (PyInt 20) (PyInt 30)
     = Inr (BarbParameters (PyFloat 1) 3 (PyInt 20) (PyInt 30))
   \<and> lerp (BarbParameters (PyFloat 0) 1 (PyInt 0) (PyInt 10))
          (BarbParameters (PyFloat 1) 3 (PyInt 20) (PyInt 30)) (1 / 2)
     = Inl AttributeError
   \<and> BarbParameters_init (PyFloat (- 1 / 2)) (PyFloat 1) (PyFloat 0) (PyFloat 10)
     = Inr (BarbParameters (PyInt 0) 1 (PyFloat 0) (PyFloat 10))
   \<and> lerp (BarbParameters (PyInt 0) 1 (PyFloat 0) (PyFloat 10))
          (BarbParameters (PyFloat 1) 3 (PyFloat 20) (PyFloat 30)) (1 / 2)
     = Inl AttributeError"
  by (simp add: BarbParameters_init_def)

text \<open>
  C10. The constructor coerces \<open>position\<close> and \<open>length\<close> with \<open>float\<close> (the
  position is then clamped) and stores the two angles as given; the global \<open>lerp\<close>
  does arithmetic only on two floats, so it raises an \<open>AttributeError\<close> on an
  int. Hence \<open>lerp\<close> of two constructed records whose angles are ints raises an
  \<open>AttributeError\<close>.
\<close>

theorem BarbParameters_lerp_int_angles:
  assumes "BarbParameters_init pos len (PyInt s) (PyInt e) = Inr a"
    and "BarbParameters_init pos' len' (PyInt s') (PyInt e') = Inr b"
  shows "start_angle a = PyInt s \<and> end_angle a = PyInt e
         \<and> py_float len = Inr (barb_length a)
         \<and> (\<exists>p. py_float pos = Inr p \<and> py_float (position a) = Inr (max 0 (min 1 p)))
         \<and> lerp (PyInt s) (PyInt s') t = Inl AttributeError
         \<and> lerp (PyInt s) (PyFloat x) t = Inl AttributeError
         \<and> lerp (PyFloat x) (PyInt s') t = Inl AttributeError
         \<and> lerp a b t = Inl AttributeError"
proof -
  from assms(1) obtain p l where a: "py_float pos = Inr p" "py_float len = Inr l"
    by (auto simp: BarbParameters_init_def split: sum.splits)
  from assms(2) obtain p' l' where b: "py_float pos' = Inr p'" "py_float len' = Inr l'"
    by (auto simp: BarbParameters_init_def split: sum.splits)
  have ea: "a = BarbParameters
                  (if p < 0 then PyInt 0 else if p \<le> 1 then PyFloat p else PyInt 1)
                  l (PyInt s) (PyInt e)"
    using init_numeric [OF a, of "PyInt s" "PyInt e"] assms(1) by simp
  have eb: "b = BarbParameters
                  (if p' < 0 then PyInt 0 else if p' \<le> 1 then PyFloat p' else PyInt 1)
                  l' (PyInt s') (PyInt e')"
    using init_numeric [OF b, of "PyInt s'" "PyInt e'"] assms(2) by simp
  have "lerp a b t = Inl AttributeError"
    unfolding ea eb by (simp split: sum.splits)
  moreover have "py_float (position a) = Inr (max 0 (min 1 p))"
    by (simp add: ea)
  ultimately show ?thesis using a by (simp add: ea)
qed

text \<open>Two records with the int angles \<open>45, 90\<close> and \<open>30, 60\<close>.\<close>

theorem BarbParameters_lerp_int_angles_witness:
  "BarbParameters_init (PyFloat (1 / 4)) (PyInt 2) (PyInt 45) (PyInt 90)
     = Inr (BarbParameters (PyFloat (1 / 4)) 2 (PyInt 45) (PyInt 90))
   \<and> BarbParameters_init (PyFloat (3 / 4)) (PyFloat 5) (PyInt 30) (PyInt 60)
     = Inr (BarbParameters (PyFloat (3 / 4)) 5 (PyInt 30) (PyInt 60))
   \<and> lerp (BarbParameters (PyFloat (1 / 4)) 2 (PyInt 45) (PyInt 90))
          (BarbParameters (PyFloat (3 / 4)) 5 (PyInt 30) (PyInt 60)) (1 / 2)
     = Inl AttributeError"
  using BarbParameters_lerp_int_angles
          [of "PyFloat (1 / 4)" "PyInt 2" 45 90
              "BarbParameters (PyFloat (1 / 4)) 2 (PyInt 45) (PyInt 90)"
              "PyFloat (3 / 4)" "PyFloat 5" 30 60
              "BarbParameters (PyFloat (3 / 4)) 5 (PyInt 30) (PyInt 60)"
              "1 / 2"]
  by (simp add: BarbParameters_init_def)

section \<open>BarbParameters: lerp after a clamp\<close>

lemma lerp_int_position:
  "lerp (BarbParameters (PyInt i) l s e) b t = Inl AttributeError"
  "lerp (BarbParameters p l s e) (BarbParameters (PyInt i) l' s' e') t = Inl AttributeError"
  by (cases b; simp split: sum.splits) (cases p; simp split: sum.splits)

text \<open>
  X1. A record built with a position below 0 or above 1 stores the int literal
  \<open>0\<close> or \<open>1\<close> of the clamp, not a float, and \<open>lerp\<close> with such a record on
  either side raises an \<open>AttributeError\<close>.
\<close>

theorem clamped_record_lerp_raises:
  assumes "py_float pos = Inr p" and "p < 0 \<or> 1 < p"
    and "BarbParameters_init pos len s e = Inr a"
  shows "(position a = PyInt 0 \<or> position a = PyInt 1)
         \<and> lerp a b t = Inl AttributeError
         \<and> lerp (BarbParameters q l' s' e') a t = Inl AttributeError"
proof -
  from assms(3) obtain l where l: "py_float len = Inr l"
    by (auto simp: BarbParameters_init_def split: sum.splits)
  have "a = BarbParameters (if p < 0 then PyInt 0 else if p \<le> 1 then PyFloat p else PyInt 1) l s e"
    using init_numeric [OF assms(1) l, of s e] assms(3) by simp
  then obtain i where "a = BarbParameters (PyInt i) l s e" "i = 0 \<or> i = 1"
    using assms(2) by (cases "p < 0") auto
  then show ?thesis using lerp_int_position by auto
qed

text \<open>The record built from the position \<open>1.5\<close>.\<close>

theorem clamped_record_lerp_raises_witness:
  "BarbParameters_init (PyFloat (3 / 2)) (PyFloat 1) (PyFloat 0) (PyFloat 10)
     = Inr (BarbParameters (PyInt 1) 1 (PyFloat 0) (PyFloat 10))
   \<and> lerp (BarbParameters (PyInt 1) 1 (PyFloat 0) (PyFloat 10))
          (BarbParameters (PyFloat 1) 3 (PyFloat 20) (PyFloat 30)) (1 / 2)
     = Inl AttributeError
   \<and> lerp (BarbParameters (PyFloat 1) 3 (PyFloat 20) (PyFloat 30))
          (BarbParameters (PyInt 1) 1 (PyFloat 0) (PyFloat 10)) (1 / 2)
     = Inl AttributeError"
  using clamped_record_lerp_raises
          [of "PyFloat (3 / 2)" "3 / 2" "PyFloat 1" "PyFloat 0" "PyFloat 10"
              "BarbParameters (PyInt 1) 1 (PyFloat 0) (PyFloat 10)"
              "BarbParameters (PyFloat 1) 3 (PyFloat 20) (PyFloat 30)" "1 / 2"
              "PyFloat 1" 3 "PyFloat 20" "PyFloat 30"]
  by (simp add: BarbParameters_init_def)

section \<open>LineGraph: set and get at a key\<close>

lemma dict_get_key:
  "k \<in> fst ` set g \<Longrightarrow> \<exists>v. map_of g k = Some v \<and> dict_get g k = Inr v"
  by (cases "map_of g k") (auto simp: dict_get_def map_of_eq_None_iff)

lemma get_exact_key:
  "k \<in> fst ` set g \<Longrightarrow> \<exists>v. map_of g k = Some v \<and> LineGraph_get g (PyFloat k) = Inr v"
  using dict_get_key [of k g] by (simp add: LineGraph_get_def)

lemma set_in_range:
  "py_float key = Inr k \<Longrightarrow> 0 \<le> k \<Longrightarrow> k \<le> 1 \<Longrightarrow>
     LineGraph_set g key v = Inr (AList.update k v g)"
  by (simp add: LineGraph_set_def)

lemma init_None: "LineGraph_init None = Inr [(0, PyFloat 0), (1, PyFloat 0)]"
  by (simp add: LineGraph_init_def)

text \<open>
  C6. For every graph, every key in \<open>[0, 1]\<close> (a float, or an int that \<open>float\<close>
  coerces) and every value, \<open>set\<close> succeeds and \<open>get\<close> at the same key then
  returns the value itself, with no blend applied.
\<close>

theorem set_then_get:
  assumes "py_float key = Inr k" and "0 \<le> k" and "k \<le> 1"
  shows "\<exists>g'. LineGraph_set g key v = Inr g' \<and> LineGraph_get g' key = Inr v"
proof -
  have "LineGraph_get (AList.update k v g) key = Inr v"
    using assms(1) by (simp add: LineGraph_get_def dom_update dict_get_def update_conv')
  then show ?thesis using set_in_range [OF assms] by simp
qed

text \<open>Setting the key \<open>0.25\<close> of the default graph to the int \<open>7\<close>.\<close>

theorem set_then_get_witness:
  "\<exists>g'. LineGraph_set [(0, PyFloat 0), (1, PyFloat 0)] (PyFloat (1 / 4)) (PyInt 7) = Inr g'
        \<and> LineGraph_get g' (PyFloat (1 / 4)) = Inr (PyInt 7)"
  using set_then_get [of "PyFloat (1 / 4)" "1 / 4" "[(0, PyFloat 0), (1, PyFloat 0)]" "PyInt 7"]
  by simp

section \<open>LineGraph: the scan of get\<close>

lemma get_scan_found:
  "x \<le> i \<Longrightarrow> i < length ps \<Longrightarrow> p \<le> ps ! i \<Longrightarrow> (\<forall>j. x \<le> j \<and> j < i \<longrightarrow> ps ! j < p) \<Longrightarrow>
     get_scan ps p x = Some (ps ! (i - 1), ps ! i)"
proof (induction ps p x rule: get_scan.induct)
  case (1 parameters parameter x)
  show ?case
  proof (cases "x = i")
    case True
    then show ?thesis using "1.prems" by (simp add: get_scan.simps)
  next
    case False
    then have lt: "x < i" using "1.prems" by simp
    then have small: "\<not> parameter \<le> parameters ! x" using "1.prems" by fastforce
    have "get_scan parameters parameter (x + 1) = Some (parameters ! (i - 1), parameters ! i)"
      using "1.IH" [OF _ small] lt "1.prems" by simp
    then show ?thesis using small lt "1.prems" by (subst get_scan.simps) simp
  qed
qed

lemma get_scan_none:
  "(\<forall>j. x \<le> j \<and> j < length ps \<longrightarrow> ps ! j < p) \<Longrightarrow> get_scan ps p x = None"
proof (induction ps p x rule: get_scan.induct)
  case (1 parameters parameter x)
  show ?case
  proof (cases "x < length parameters")
    case True
    then have small: "\<not> parameter \<le> parameters ! x" using "1.prems" by fastforce
    have "get_scan parameters parameter (x + 1) = None"
      using "1.IH" [OF True small] "1.prems" by simp
    then show ?thesis using small True by (subst get_scan.simps) simp
  next
    case False
    then show ?thesis by (simp add: get_scan.simps)
  qed
qed

lemma sorted_distinct_nth_less:
  "sorted ps \<Longrightarrow> distinct ps \<Longrightarrow> i < j \<Longrightarrow> j < length ps \<Longrightarrow> ps ! i < (ps ! j :: real)"
  by (metis sorted_wrt_nth_less strict_sorted_iff)

lemma point_locations_props:
  "graph_invar g \<Longrightarrow> sorted (point_locations g) \<and> distinct (point_locations g)
     \<and> set (point_locations g) = fst ` set g"
  by (auto simp: graph_invar_def point_locations_def)

lemma bracket:
  assumes inv: "graph_invar g" and p0: "0 \<le> p" and p1: "p \<le> 1" and nk: "p \<notin> fst ` set g"
  shows "\<exists>i. 1 \<le> i \<and> i < length (point_locations g)
            \<and> point_locations g ! i = smallest_key_geq g p
            \<and> point_locations g ! (i - 1) = preceding_key g (smallest_key_geq g p)
            \<and> point_locations g ! (i - 1) < p \<and> p < point_locations g ! i
            \<and> get_scan (point_locations g) p 1
                = Some (point_locations g ! (i - 1), point_locations g ! i)"
proof -
  define ps where "ps = point_locations g"
  define high where "high = smallest_key_geq g p"
  define H where "H = set (filter (\<lambda>k. p \<le> k) (map fst g))"
  define L where "L = set (filter (\<lambda>k. k < high) (map fst g))"
  have srt: "sorted ps" and dst: "distinct ps" and keys: "set ps = fst ` set g"
    using point_locations_props [OF inv] by (simp_all add: ps_def)
  have k0: "0 \<in> set ps" and k1: "1 \<in> set ps"
    using inv keys by (simp_all add: graph_invar_def)
  have Hdef: "H = {k \<in> set ps. p \<le> k}" by (auto simp: H_def keys)
  have Ldef: "L = {k \<in> set ps. k < high}" by (auto simp: L_def keys)
  have "finite H" and "H \<noteq> {}" using k1 p1 by (auto simp: Hdef)
  moreover have "high = Min H" by (simp only: high_def smallest_key_geq_def H_def)
  ultimately have hH: "high \<in> H" and hmin: "\<And>k. k \<in> H \<Longrightarrow> high \<le> k"
    by simp_all
  from hH have hk: "high \<in> set ps" and "p \<le> high" by (simp_all add: Hdef)
  with nk keys have ph: "p < high" by force
  from k0 nk keys p0 have pp: "0 < p" by force
  from hk obtain i where i: "i < length ps" "ps ! i = high" by (auto simp: in_set_conv_nth)
  have below: "ps ! j < p" if "j < i" for j
  proof (rule ccontr)
    assume "\<not> ps ! j < p"
    then have "ps ! j \<in> H" using that i by (simp add: Hdef)
    then have "high \<le> ps ! j" by (rule hmin)
    moreover have "ps ! j < ps ! i" using sorted_distinct_nth_less [OF srt dst that i(1)] .
    ultimately show False using i by simp
  qed
  have i1: "1 \<le> i"
  proof (rule ccontr)
    assume "\<not> 1 \<le> i"
    then have "i = 0" by simp
    from k0 obtain j where j: "j < length ps" "ps ! j = 0" by (auto simp: in_set_conv_nth)
    have "ps ! 0 \<le> ps ! j" using sorted_nth_mono [OF srt _ j(1), of 0] by simp
    then show False using \<open>i = 0\<close> i ph pp j by simp
  qed
  have lowL: "ps ! (i - 1) \<in> L"
    using i i1 sorted_distinct_nth_less [OF srt dst, of "i - 1" i] by (simp add: Ldef)
  have lmax: "k \<le> ps ! (i - 1)" if "k \<in> L" for k
  proof -
    from that obtain j where j: "j < length ps" "ps ! j = k" and kh: "k < high"
      by (auto simp: Ldef in_set_conv_nth)
    have "j < i"
    proof (rule ccontr)
      assume "\<not> j < i"
      then have "ps ! i \<le> ps ! j" using sorted_nth_mono [OF srt _ j(1), of i] by simp
      then show False using i j kh by simp
    qed
    then have "ps ! j \<le> ps ! (i - 1)" using sorted_nth_mono [OF srt, of j "i - 1"] i by simp
    then show ?thesis using j by simp
  qed
  have "finite L" by (simp add: L_def)
  then have low: "preceding_key g high = ps ! (i - 1)"
    unfolding preceding_key_def L_def [symmetric] using lowL lmax by (intro Max_eqI) auto
  have scan: "get_scan ps p 1 = Some (ps ! (i - 1), ps ! i)"
    using get_scan_found [of 1 i ps p] i1 i ph below by simp
  have "ps ! (i - 1) < p" using below [of "i - 1"] i1 by simp
  with i1 i low scan ph show ?thesis
    unfolding ps_def [symmetric] high_def [symmetric] by (intro exI [of _ i]) simp
qed

text \<open>
  C1. For every graph and every position \<open>p\<close> in \<open>[0, 1]\<close> that is not a key,
  \<open>get\<close> returns the blend of the values stored at \<open>low\<close> and \<open>high\<close> at the
  fraction \<open>(p - low) / (high - low)\<close>, where \<open>high\<close> is the smallest key that is
  at least \<open>p\<close> and \<open>low\<close> is the largest key below \<open>high\<close>; whatever the blend
  returns or raises is what \<open>get\<close> returns or raises.
\<close>

theorem get_interpolates_between_neighbours:
  assumes "graph_invar g" and "0 \<le> p" and "p \<le> 1" and "p \<notin> fst ` set g"
  shows "let high = smallest_key_geq g p; low = preceding_key g high in
           low \<in> fst ` set g \<and> high \<in> fst ` set g \<and> low < p \<and> p < high
           \<and> (\<exists>vlow vhigh. map_of g low = Some vlow \<and> map_of g high = Some vhigh
                \<and> LineGraph_get g (PyFloat p) = lerp vlow vhigh ((p - low) / (high - low)))"
proof -
  from bracket [OF assms] obtain i where
    i: "1 \<le> i" "i < length (point_locations g)"
    and hi: "point_locations g ! i = smallest_key_geq g p"
    and lo: "point_locations g ! (i - 1) = preceding_key g (smallest_key_geq g p)"
    and lt: "point_locations g ! (i - 1) < p" "p < point_locations g ! i"
    and scan: "get_scan (point_locations g) p 1
                = Some (point_locations g ! (i - 1), point_locations g ! i)"
    by blast
  define high where "high = smallest_key_geq g p"
  define low where "low = preceding_key g high"
  have keys: "set (point_locations g) = fst ` set g"
    using point_locations_props [OF assms(1)] by simp
  have hk: "high \<in> fst ` set g" using i hi keys nth_mem [of i "point_locations g"]
    by (simp add: high_def)
  have lk: "low \<in> fst ` set g" using i lo keys nth_mem [of "i - 1" "point_locations g"]
    by (simp add: low_def high_def)
  from dict_get_key [OF lk] obtain vlow where vl: "map_of g low = Some vlow" "dict_get g low = Inr vlow"
    by blast
  from dict_get_key [OF hk] obtain vhigh where vh: "map_of g high = Some vhigh" "dict_get g high = Inr vhigh"
    by blast
  have ord: "low < p" "p < high" using lt hi lo by (simp_all add: low_def high_def)
  have "LineGraph_get g (PyFloat p) = lerp vlow vhigh ((p - low) / (high - low))"
    using assms(4) scan hi lo vl vh ord
    by (simp add: LineGraph_get_def py_div_def low_def [symmetric] high_def [symmetric])
  then show ?thesis using hk lk vl vh ord by (simp add: low_def high_def Let_def)
qed

text \<open>Scenario B: the graph \<open>{0.0: 0.0, 0.5: 10.0, 1.0: 0.0}\<close> at \<open>0.25\<close>.\<close>

lemma scenario_B_init:
  "LineGraph_init (Some [(PyFloat 0, PyFloat 0), (PyFloat (1 / 2), PyFloat 10), (PyFloat 1, PyFloat 0)])
     = Inr [(0, PyFloat 0), (1 / 2, PyFloat 10), (1, PyFloat 0)]"
  by (simp add: LineGraph_init_def)

theorem get_interpolates_between_neighbours_witness:
  "LineGraph_init (Some [(PyFloat 0, PyFloat 0), (PyFloat (1 / 2), PyFloat 10), (PyFloat 1, PyFloat 0)])
     = Inr [(0, PyFloat 0), (1 / 2, PyFloat 10), (1, PyFloat 0)]
   \<and> smallest_key_geq [(0, PyFloat 0), (1 / 2, PyFloat 10), (1, PyFloat 0)] (1 / 4) = 1 / 2
   \<and> preceding_key [(0, PyFloat 0), (1 / 2, PyFloat 10), (1, PyFloat 0)] (1 / 2) = 0
   \<and> LineGraph_get [(0, PyFloat 0), (1 / 2, PyFloat 10), (1, PyFloat 0)] (PyFloat (1 / 4))
       = Inr (PyFloat 5)"
proof -
  let ?g = "[(0, PyFloat 0), (1 / 2, PyFloat 10), (1, PyFloat 0)] :: LineGraph"
  have inv: "graph_invar ?g" by (simp add: graph_invar_def)
  have nk: "(1 / 4 :: real) \<notin> fst ` set ?g" by simp
  have h: "smallest_key_geq ?g (1 / 4) = 1 / 2"
    by (simp add: smallest_key_geq_def)
  have l: "preceding_key ?g (1 / 2) = 0"
    by (simp add: preceding_key_def)
  from get_interpolates_between_neighbours [OF inv _ _ nk]
  have "\<exists>vlow vhigh. map_of ?g 0 = Some vlow \<and> map_of ?g (1 / 2) = Some vhigh
          \<and> LineGraph_get ?g (PyFloat (1 / 4)) = lerp vlow vhigh ((1 / 4 - 0) / (1 / 2 - 0))"
    by (simp add: h l Let_def)
  then have "LineGraph_get ?g (PyFloat (1 / 4)) = Inr (PyFloat 5)"
    by auto
  then show ?thesis using h l scenario_B_init by simp
qed

section \<open>LineGraph: get outside the keys\<close>

lemma get_above_all_keys:
  assumes "\<forall>k \<in> fst ` set g. k < p"
  shows "LineGraph_get g (PyFloat p) = Inl KeyError"
proof -
  have "set (point_locations g) = fst ` set g" by (simp add: point_locations_def)
  then have "\<forall>j. 1 \<le> j \<and> j < length (point_locations g) \<longrightarrow> point_locations g ! j < p"
    using assms nth_mem by blast
  then have "get_scan (point_locations g) p 1 = None" by (rule get_scan_none)
  moreover have "p \<notin> fst ` set g" using assms by auto
  ultimately show ?thesis by (simp add: LineGraph_get_def)
qed

text \<open>
  C5, at a position below 0. On the default graph \<open>LineGraph()\<close>, \<open>get(-0.5)\<close>
  does not raise: the scan stops at index 1, and the call returns the blend of the
  values at \<open>0.0\<close> and \<open>1.0\<close> at the fraction \<open>-0.5\<close>. On the same graph
  \<open>get(1.5)\<close> raises the \<open>KeyError\<close>, and \<open>set\<close> refuses both positions with
  a \<open>ValueError\<close>.
\<close>

theorem get_below_zero_returns:
  "LineGraph_init None = Inr [(0, PyFloat 0), (1, PyFloat 0)]
   \<and> LineGraph_get [(0, PyFloat 0), (1, PyFloat 0)] (PyFloat (- 1 / 2)) = Inr (PyFloat 0)
   \<and> LineGraph_get [(0, PyFloat 0), (1, PyFloat 0)] (PyFloat (3 / 2)) = Inl KeyError
   \<and> LineGraph_set [(0, PyFloat 0), (1, PyFloat 0)] (PyFloat (- 1 / 2)) v = Inl ValueError
   \<and> LineGraph_set [(0, PyFloat 0), (1, PyFloat 0)] (PyFloat (3 / 2)) v = Inl ValueError"
  by (simp add: init_None LineGraph_get_def LineGraph_set_def point_locations_def
      get_scan.simps dict_get_def py_div_def)

section \<open>LineGraph: the keys 0.0 and 1.0\<close>

lemma float_keys_distinct:
  "distinct (map fst acc) \<Longrightarrow> float_keys items acc = Inr d \<Longrightarrow> distinct (map fst d)"
proof (induction items arbitrary: acc)
  case Nil
  then show ?case by simp
next
  case (Cons item items)
  obtain key v where item: "item = (key, v)" by (cases item)
  from Cons.prems(2) obtain k where k: "py_float key = Inr k"
    and rest: "float_keys items (AList.update k v acc) = Inr d"
    by (auto simp: item split: sum.splits)
  have "distinct (map fst (AList.update k v acc))"
    using Cons.prems(1) by (rule distinct_update)
  then show ?case using rest by (rule Cons.IH)
qed

lemma init_cases:
  assumes "LineGraph_init points = Inr g"
  shows "\<exists>d. float_keys (case points of None \<Rightarrow> [] | Some items \<Rightarrow> items) [] = Inr d
           \<and> distinct (map fst d)
           \<and> g = (let d0 = (if 0 \<notin> fst ` set d then AList.update 0 (PyFloat 0) d else d)
                  in if 1 \<notin> fst ` set d0 then AList.update 1 (PyFloat 0) d0 else d0)"
proof -
  from assms obtain d where d: "float_keys (case points of None \<Rightarrow> [] | Some items \<Rightarrow> items) [] = Inr d"
    by (auto simp: LineGraph_init_def split: sum.splits)
  have "distinct (map fst d)" using float_keys_distinct [OF _ d] by simp
  then show ?thesis using assms d by (simp add: LineGraph_init_def Let_def)
qed

lemma init_invar:
  assumes "LineGraph_init points = Inr g"
  shows "graph_invar g"
proof -
  from init_cases [OF assms] obtain d where dst: "distinct (map fst d)"
    and g: "g = (let d0 = (if 0 \<notin> fst ` set d then AList.update 0 (PyFloat 0) d else d)
                  in if 1 \<notin> fst ` set d0 then AList.update 1 (PyFloat 0) d0 else d0)"
    by blast
  show ?thesis unfolding graph_invar_def g Let_def
    using dst by (auto simp: dom_update distinct_update)
qed

lemma init_values:
  assumes "LineGraph_init points = Inr g"
    and "float_keys (case points of None \<Rightarrow> [] | Some items \<Rightarrow> items) [] = Inr d"
  shows "map_of g k =
           (if k \<in> fst ` set d then map_of d k
            else if k = 0 \<or> k = 1 then Some (PyFloat 0) else None)"
proof -
  have g: "g = (let d0 = (if 0 \<notin> fst ` set d then AList.update 0 (PyFloat 0) d else d)
                  in if 1 \<notin> fst ` set d0 then AList.update 1 (PyFloat 0) d0 else d0)"
    using assms by (simp add: LineGraph_init_def Let_def)
  have none: "k \<notin> fst ` set d \<Longrightarrow> map_of d k = None" by (simp add: map_of_eq_None_iff)
  show ?thesis unfolding g Let_def
    using none by (auto simp: update_conv' dom_update)
qed

lemma set_invar:
  assumes "graph_invar g" and "LineGraph_set g key v = Inr g'"
  shows "graph_invar g' \<and> fst ` set g \<subseteq> fst ` set g'"
proof -
  from assms(2) obtain k where "g' = AList.update k v g"
    by (auto simp: LineGraph_set_def split: sum.splits if_splits)
  then show ?thesis using assms(1)
    by (auto simp: graph_invar_def dom_update distinct_update)
qed

lemma lerp_points_invar:
  "graph_invar result \<Longrightarrow> lerp_points self other t pts result = Inr r \<Longrightarrow> graph_invar r"
proof (induction pts arbitrary: result)
  case Nil
  then show ?case by simp
next
  case (Cons point pts)
  from Cons.prems(2) obtain v result' where
    s: "LineGraph_set result (PyFloat point) v = Inr result'"
    and rest: "lerp_points self other t pts result' = Inr r"
    by (auto split: sum.splits)
  have "graph_invar result'" using set_invar [OF Cons.prems(1) s] by simp
  then show ?case using rest by (rule Cons.IH)
qed

lemma lerp_invar:
  assumes "LineGraph_lerp g1 g2 t = Inr r"
  shows "graph_invar r"
proof -
  have "graph_invar [(0, PyFloat 0), (1, PyFloat 0)]" by (simp add: graph_invar_def)
  then show ?thesis using assms lerp_points_invar
    by (simp add: LineGraph_lerp_def init_None)
qed

lemma reachable_invar: "reachable g \<Longrightarrow> graph_invar g"
proof (induction rule: reachable.induct)
  case (init points g)
  then show ?case by (rule init_invar)
next
  case (set g k v g')
  then show ?case using set_invar by blast
next
  case (lerp g1 g2 t g)
  then show ?case using lerp_invar by blast
qed

text \<open>
  C2. Every graph the class can produce holds the keys \<open>0.0\<close> and \<open>1.0\<close>, and
  \<open>get\<close> at either returns the stored value. Construction keeps every supplied
  entry and adds \<open>0.0\<close> and \<open>1.0\<close> with the value \<open>0.0\<close> where they are absent,
  and nothing else; \<open>set\<close> keeps every key; the result of \<open>lerp\<close> holds both
  keys. \<open>get\<close> and \<open>lerp\<close> return a value and leave the graphs they read as
  they are.
\<close>

theorem endpoints_always_present:
  "(reachable g \<longrightarrow>
      (\<exists>v0 v1. map_of g 0 = Some v0 \<and> map_of g 1 = Some v1
         \<and> LineGraph_get g (PyFloat 0) = Inr v0 \<and> LineGraph_get g (PyFloat 1) = Inr v1))
   \<and> (LineGraph_init points = Inr g \<longrightarrow>
        (\<exists>d. float_keys (case points of None \<Rightarrow> [] | Some items \<Rightarrow> items) [] = Inr d
           \<and> (\<forall>k. map_of g k =
                 (if k \<in> fst ` set d then map_of d k
                  else if k = 0 \<or> k = 1 then Some (PyFloat 0) else None))))
   \<and> (reachable g \<and> LineGraph_set g key v = Inr g' \<longrightarrow>
        fst ` set g \<subseteq> fst ` set g' \<and> reachable g')
   \<and> (reachable g \<and> reachable g2 \<and> LineGraph_lerp g g2 t = Inr r \<longrightarrow>
        0 \<in> fst ` set r \<and> 1 \<in> fst ` set r \<and> reachable r)"
proof (intro conjI impI)
  assume "reachable g"
  then have inv: "graph_invar g" by (rule reachable_invar)
  then have "0 \<in> fst ` set g" and "1 \<in> fst ` set g" by (simp_all add: graph_invar_def)
  then show "\<exists>v0 v1. map_of g 0 = Some v0 \<and> map_of g 1 = Some v1
         \<and> LineGraph_get g (PyFloat 0) = Inr v0 \<and> LineGraph_get g (PyFloat 1) = Inr v1"
    using get_exact_key [of 0 g] get_exact_key [of 1 g] by blast
next
  assume a: "LineGraph_init points = Inr g"
  from init_cases [OF a] obtain d
    where d: "float_keys (case points of None \<Rightarrow> [] | Some items \<Rightarrow> items) [] = Inr d"
    by blast
  show "\<exists>d. float_keys (case points of None \<Rightarrow> [] | Some items \<Rightarrow> items) [] = Inr d
           \<and> (\<forall>k. map_of g k =
                 (if k \<in> fst ` set d then map_of d k
                  else if k = 0 \<or> k = 1 then Some (PyFloat 0) else None))"
    using d init_values [OF a d] by blast
next
  assume a: "reachable g \<and> LineGraph_set g key v = Inr g'"
  then have "graph_invar g" using reachable_invar by blast
  then show "fst ` set g \<subseteq> fst ` set g'" using set_invar a by blast
  show "reachable g'" using a reachable.set by blast
next
  assume a: "reachable g \<and> reachable g2 \<and> LineGraph_lerp g g2 t = Inr r"
  then have "graph_invar r" using lerp_invar by blast
  then show "0 \<in> fst ` set r" and "1 \<in> fst ` set r" by (simp_all add: graph_invar_def)
  show "reachable r" using a reachable.lerp by blast
qed


text \<open>The default graph, a \<open>set\<close> on it and its \<open>lerp\<close> with itself.\<close>

theorem endpoints_always_present_witness:
  "reachable [(0, PyFloat 0), (1, PyFloat 0)]
   \<and> LineGraph_get [(0, PyFloat 0), (1, PyFloat 0)] (PyFloat 0) = Inr (PyFloat 0)
   \<and> LineGraph_get [(0, PyFloat 0), (1, PyFloat 0)] (PyFloat 1) = Inr (PyFloat 0)
   \<and> LineGraph_set [(0, PyFloat 0), (1, PyFloat 0)] (PyFloat (1 / 2)) (PyInt 7)
        = Inr [(0, PyFloat 0), (1, PyFloat 0), (1 / 2, PyInt 7)]
   \<and> reachable [(0, PyFloat 0), (1, PyFloat 0), (1 / 2, PyInt 7)]
   \<and> LineGraph_lerp [(0, PyFloat 0), (1, PyFloat 0)] [(0, PyFloat 0), (1, PyFloat 0)] (1 / 2)
        = Inr [(0, PyFloat 0), (1, PyFloat 0)]"
proof -
  let ?g = "[(0, PyFloat 0), (1, PyFloat 0)] :: LineGraph"
  let ?g' = "[(0, PyFloat 0), (1, PyFloat 0), (1 / 2, PyInt 7)] :: LineGraph"
  have reach: "reachable ?g" by (rule reachable.init [of None]) (rule init_None)
  have st: "LineGraph_set ?g (PyFloat (1 / 2)) (PyInt 7) = Inr ?g'"
    by (simp add: LineGraph_set_def)
  have lp: "LineGraph_lerp ?g ?g (1 / 2) = Inr ?g"
    by (simp add: LineGraph_lerp_def init_None point_locations_def LineGraph_get_def
        dict_get_def LineGraph_set_def)
  show ?thesis
    using endpoints_always_present [of ?g None "PyFloat (1 / 2)" "PyInt 7" ?g' ?g "1 / 2" ?g]
      reach st lp init_None
    by simp
qed

section \<open>LineGraph: lerp\<close>





section \<open>LineGraph: lerp in double arithmetic\<close>











section \<open>The barb loop: positions and determinism\<close>

lemma get_scan_some:
  "get_scan ps p x = Some (lo, hi) \<Longrightarrow>
     \<exists>i. x \<le> i \<and> i < length ps \<and> lo = ps ! (i - 1) \<and> hi = ps ! i"
proof (induction ps p x rule: get_scan.induct)
  case (1 parameters parameter x)
  show ?case
  proof (cases "x < length parameters \<and> \<not> parameter \<le> parameters ! x")
    case True
    then have "get_scan parameters parameter (x + 1) = Some (lo, hi)"
      using "1.prems" by (subst (asm) get_scan.simps) simp
    with "1.IH" True obtain i where "x + 1 \<le> i" "i < length parameters"
      "lo = parameters ! (i - 1)" "hi = parameters ! i" by auto
    then show ?thesis by (intro exI [of _ i]) simp
  next
    case False
    then show ?thesis using "1.prems"
      by (subst (asm) get_scan.simps) (auto split: if_splits)
  qed
qed

lemma py_float_errors: "py_float v = Inl err \<Longrightarrow> err = TypeError \<or> err = OverflowError"
  by (cases v) (auto split: if_splits)

lemma init_errors: "BarbParameters_init p l s e = Inl err \<Longrightarrow> err \<noteq> ZeroDivisionError"
  by (auto simp: BarbParameters_init_def split: sum.splits dest: py_float_errors)

lemma lerp_errors: "lerp a b t = Inl err \<Longrightarrow> err \<noteq> ZeroDivisionError"
proof (induction a b t rule: lerp.induct)
  case (2 p l s e p' l' s' e' t)
  then show ?case
    by (auto split: sum.splits dest: init_errors)
qed auto

lemma draw_barb_errors:
  "draw_barb pos v = Inl err \<Longrightarrow> err \<noteq> ZeroDivisionError"
  by (cases "(pos, v)" rule: draw_barb.cases)
     (auto simp: radians_def Let_def split: sum.splits dest: py_float_errors)

lemma get_no_zero_division:
  assumes "graph_invar g"
  shows "LineGraph_get g key \<noteq> Inl ZeroDivisionError"
proof
  assume a: "LineGraph_get g key = Inl ZeroDivisionError"
  have props: "distinct (point_locations g)" using point_locations_props [OF assms] by simp
  from a obtain p where p: "py_float key = Inr p"
    by (cases "py_float key") (auto simp: LineGraph_get_def dest: py_float_errors)
  show False
  proof (cases "p \<in> fst ` set g")
    case True
    then show ?thesis using a p dict_get_key [OF True] by (auto simp: LineGraph_get_def)
  next
    case False
    then obtain lo hi where scan: "get_scan (point_locations g) p 1 = Some (lo, hi)"
      using a p by (auto simp: LineGraph_get_def split: option.splits)
    from get_scan_some [OF scan] obtain i where i: "1 \<le> i" "i < length (point_locations g)"
      "lo = point_locations g ! (i - 1)" "hi = point_locations g ! i" by blast
    then have "lo \<noteq> hi" using props by (auto simp: nth_eq_iff_index_eq)
    then show ?thesis using a p False scan
      by (auto simp: LineGraph_get_def dict_get_def py_div_def
          split: option.splits sum.splits dest: lerp_errors)
  qed
qed


lemma barbs_loop_iff:
  "barbs_loop pp sel g is = Inr bs \<longleftrightarrow> list_all2 (resolved_at pp sel g) is bs"
proof (induction "is" arbitrary: bs)
  case Nil
  then show ?case by auto
next
  case (Cons i rest)
  show ?case
  proof
    assume a: "barbs_loop pp sel g (i # rest) = Inr bs"
    then obtain pos info curve barbs where
      r: "py_div (real i) (of_int (max (int (length sel) - 1) 1)) = Inr pos"
         "LineGraph_get g (PyFloat pos) = Inr info"
         "draw_barb (pp (sel ! i)) info = Inr curve"
         "barbs_loop pp sel g rest = Inr barbs"
         "bs = \<lparr>parameter_position = pos, barb_info = info, curve_points = curve\<rparr> # barbs"
      by (auto simp: Let_def split: sum.splits)
    have "pos = real i / of_int (max (int (length sel) - 1) 1)"
      using r(1) by (simp add: py_div_def split: if_splits)
    then have "resolved_at pp sel g i \<lparr>parameter_position = pos, barb_info = info, curve_points = curve\<rparr>"
      using r by (simp add: resolved_at_def)
    moreover have "list_all2 (resolved_at pp sel g) rest barbs" using Cons.IH [of barbs] r(4) by blast
    ultimately show "list_all2 (resolved_at pp sel g) (i # rest) bs" using r(5) by simp
  next
    assume a: "list_all2 (resolved_at pp sel g) (i # rest) bs"
    then obtain b barbs where bs: "bs = b # barbs" and b: "resolved_at pp sel g i b"
      and rest: "list_all2 (resolved_at pp sel g) rest barbs"
      by (auto simp: list_all2_Cons1)
    have "barbs_loop pp sel g rest = Inr barbs" using Cons.IH [of barbs] rest by blast
    moreover have "py_div (real i) (of_int (max (int (length sel) - 1) 1))
                     = Inr (parameter_position b)"
      using b by (simp add: resolved_at_def py_div_def)
    moreover obtain pos info curve where
      beq: "b = \<lparr>parameter_position = pos, barb_info = info, curve_points = curve\<rparr>"
      by (cases b) simp
    ultimately show "barbs_loop pp sel g (i # rest) = Inr bs"
      using b bs by (auto simp: resolved_at_def Let_def)
  qed
qed


lemma code_position: "real i / of_int (max (int N - 1) 1) = normalized_position N i"
proof -
  have "max (int N - 1) 1 = int (max (N - 1) 1)" by (cases N) auto
  then show ?thesis by (simp add: normalized_position_def)
qed

lemma make_barb_curves_iff:
  "make_barb_curves pp sel g = Inr bs \<longleftrightarrow>
     length bs = length sel \<and> (\<forall>i < length sel. resolved_at pp sel g i (bs ! i))"
  by (auto simp: make_barb_curves_def barbs_loop_iff list_all2_conv_all_nth)

lemma barbs_loop_no_zero_division:
  assumes "graph_invar g"
  shows "barbs_loop pp sel g is \<noteq> Inl ZeroDivisionError"
proof (induction "is")
  case Nil
  then show ?case by simp
next
  case (Cons i rest)
  show ?case
    using Cons.IH get_no_zero_division [OF assms]
    by (auto simp: Let_def py_div_def split: sum.splits dest: draw_barb_errors)
qed

lemma normalized_position_mono:
  assumes "i < j"
  shows "normalized_position N i < normalized_position N j"
proof -
  have "0 < real (max (N - 1) 1)" by simp
  then show ?thesis using assms
    unfolding normalized_position_def by (intro divide_strict_right_mono) simp_all
qed

lemma single_anchor:
  assumes "graph_invar g"
  shows "\<exists>v0. map_of g 0 = Some v0 \<and>
           make_barb_curves pp [vertex] g =
             (case draw_barb (pp vertex) v0 of
                Inl err \<Rightarrow> Inl err
              | Inr curve \<Rightarrow>
                  Inr [\<lparr>parameter_position = 0, barb_info = v0, curve_points = curve\<rparr>])"
proof -
  have "0 \<in> fst ` set g" using assms by (simp add: graph_invar_def)
  from get_exact_key [OF this] obtain v0 where
    v0: "map_of g 0 = Some v0" "LineGraph_get g (PyFloat 0) = Inr v0" by blast
  then show ?thesis
    by (auto simp: make_barb_curves_def py_div_def Let_def split: sum.splits)
qed

text \<open>
  C4. For every selection of \<open>N \<ge> 1\<close> vertices, a run of the loop that raises
  nothing is exactly a list of \<open>N\<close> entries whose entry \<open>i\<close> holds the position
  \<open>i / max(N - 1, 1)\<close>, the value \<open>get\<close> returns there and the curve drawn from
  it. The first position is \<open>0\<close>, the last is \<open>1\<close> when \<open>N > 1\<close>, and the positions
  increase strictly with the index. The run never divides by zero, and with one
  vertex it resolves the value stored at \<open>0.0\<close> and nothing else.
\<close>

theorem make_barb_curves_positions:
  assumes "1 \<le> length sel" and "graph_invar g"
  shows "(make_barb_curves pp sel g = Inr bs \<longleftrightarrow>
            length bs = length sel
            \<and> (\<forall>i < length sel.
                 parameter_position (bs ! i) = normalized_position (length sel) i
                 \<and> LineGraph_get g (PyFloat (normalized_position (length sel) i))
                     = Inr (barb_info (bs ! i))
                 \<and> draw_barb (pp (sel ! i)) (barb_info (bs ! i)) = Inr (curve_points (bs ! i))))
         \<and> normalized_position (length sel) 0 = 0
         \<and> (1 < length sel \<longrightarrow> normalized_position (length sel) (length sel - 1) = 1)
         \<and> (\<forall>i j. i < j \<and> j < length sel \<longrightarrow>
               normalized_position (length sel) i < normalized_position (length sel) j)
         \<and> make_barb_curves pp sel g \<noteq> Inl ZeroDivisionError
         \<and> (length sel = 1 \<longrightarrow>
              (\<exists>v0. map_of g 0 = Some v0 \<and>
                 make_barb_curves pp sel g =
                   (case draw_barb (pp (sel ! 0)) v0 of
                      Inl err \<Rightarrow> Inl err
                    | Inr curve \<Rightarrow>
                        Inr [\<lparr>parameter_position = 0, barb_info = v0,
                              curve_points = curve\<rparr>])))"
proof (intro conjI impI allI)
  show "make_barb_curves pp sel g = Inr bs \<longleftrightarrow>
            length bs = length sel
            \<and> (\<forall>i < length sel.
                 parameter_position (bs ! i) = normalized_position (length sel) i
                 \<and> LineGraph_get g (PyFloat (normalized_position (length sel) i))
                     = Inr (barb_info (bs ! i))
                 \<and> draw_barb (pp (sel ! i)) (barb_info (bs ! i)) = Inr (curve_points (bs ! i)))"
    unfolding make_barb_curves_iff resolved_at_def code_position by auto
next
  show "normalized_position (length sel) 0 = 0" by (simp add: normalized_position_def)
next
  assume "1 < length sel"
  then show "normalized_position (length sel) (length sel - 1) = 1"
    by (simp add: normalized_position_def)
next
  fix i j assume "i < j \<and> j < length sel"
  then show "normalized_position (length sel) i < normalized_position (length sel) j"
    using normalized_position_mono by blast
next
  show "make_barb_curves pp sel g \<noteq> Inl ZeroDivisionError"
    unfolding make_barb_curves_def by (rule barbs_loop_no_zero_division [OF assms(2)])
next
  assume "length sel = 1"
  then obtain vertex where "sel = [vertex]" by (cases sel) auto
  then show "\<exists>v0. map_of g 0 = Some v0 \<and>
                 make_barb_curves pp sel g =
                   (case draw_barb (pp (sel ! 0)) v0 of
                      Inl err \<Rightarrow> Inl err
                    | Inr curve \<Rightarrow>
                        Inr [\<lparr>parameter_position = 0, barb_info = v0,
                              curve_points = curve\<rparr>])"
    using single_anchor [OF assms(2), of pp vertex] by simp
qed

lemma draw_barb_position_free:
  "map_sum id (\<lambda>c. ()) (draw_barb pos v) = map_sum id (\<lambda>c. ()) (draw_barb pos' v)"
  by (cases "(pos, v)" rule: draw_barb.cases; cases pos')
     (auto simp: Let_def split: sum.splits)

lemma barbs_loop_deterministic:
  assumes "length sel1 = length sel2"
  shows "resolved_records (barbs_loop pp1 sel1 g is) = resolved_records (barbs_loop pp2 sel2 g is)"
proof (induction "is")
  case Nil
  then show ?case by simp
next
  case (Cons i rest)
  show ?case
  proof (cases "py_div (real i) (of_int (max (int (length sel2) - 1) 1))")
    case (Inl err)
    then show ?thesis using assms by (simp add: resolved_records_def)
  next
    case pos: (Inr pos)
    show ?thesis
    proof (cases "LineGraph_get g (PyFloat pos)")
      case (Inl err)
      then show ?thesis using assms pos by (simp add: resolved_records_def)
    next
      case info: (Inr info)
      show ?thesis
        using draw_barb_position_free [of "pp1 (sel1 ! i)" info "pp2 (sel2 ! i)"] Cons.IH
          assms pos info
        by (auto simp: resolved_records_def Let_def split: sum.splits)
    qed
  qed
qed

text \<open>
  C9. The positions and values a run resolves depend on the number of selected
  vertices and on the graph only: two runs over selections of the same length
  resolve the same sequence, or raise the same exception, whatever the vertex
  names and whatever world positions the host reports for them.
\<close>

theorem resolved_records_deterministic:
  assumes "length sel1 = length sel2"
  shows "resolved_records (make_barb_curves pp1 sel1 g)
           = resolved_records (make_barb_curves pp2 sel2 g)"
  using barbs_loop_deterministic [OF assms] assms by (simp add: make_barb_curves_def)

text \<open>
  A graph of two records at \<open>0.0\<close> and \<open>1.0\<close>, sampled over three vertices and
  over one.
\<close>

lemma three_anchors:
  "\<exists>bs. make_barb_curves (\<lambda>v. (0, 0, 0)) [''a'', ''b'', ''c'']
           [(0, BarbParameters (PyFloat 0) 1 (PyFloat 0) (PyFloat 10)),
            (1, BarbParameters (PyFloat 1) 3 (PyFloat 20) (PyFloat 30))] = Inr bs
         \<and> map barb_info bs =
             [BarbParameters (PyFloat 0) 1 (PyFloat 0) (PyFloat 10),
              BarbParameters (PyFloat (1 / 2)) 2 (PyFloat 10) (PyFloat 20),
              BarbParameters (PyFloat 1) 3 (PyFloat 20) (PyFloat 30)]"
  by (simp add: make_barb_curves_def py_div_def LineGraph_get_def dict_get_def
      point_locations_def get_scan.simps radians_def Let_def BarbParameters_init_def)

theorem make_barb_curves_positions_witness:
  "(\<exists>bs. make_barb_curves (\<lambda>v. (0, 0, 0)) [''a'', ''b'', ''c'']
           [(0, BarbParameters (PyFloat 0) 1 (PyFloat 0) (PyFloat 10)),
            (1, BarbParameters (PyFloat 1) 3 (PyFloat 20) (PyFloat 30))] = Inr bs
         \<and> map parameter_position bs = [0, 1 / 2, 1]
         \<and> map barb_info bs =
             [BarbParameters (PyFloat 0) 1 (PyFloat 0) (PyFloat 10),
              BarbParameters (PyFloat (1 / 2)) 2 (PyFloat 10) (PyFloat 20),
              BarbParameters (PyFloat 1) 3 (PyFloat 20) (PyFloat 30)])
   \<and> (\<exists>c. make_barb_curves (\<lambda>v. (0, 0, 0)) [''a'']
           [(0, BarbParameters (PyFloat 0) 1 (PyFloat 0) (PyFloat 10)),
            (1, BarbParameters (PyFloat 1) 3 (PyFloat 20) (PyFloat 30))]
         = Inr [\<lparr>parameter_position = 0,
                 barb_info = BarbParameters (PyFloat 0) 1 (PyFloat 0) (PyFloat 10),
                 curve_points = c\<rparr>])"
proof -
  let ?pp = "(\<lambda>v. (0, 0, 0)) :: string \<Rightarrow> point"
  let ?A = "BarbParameters (PyFloat 0) 1 (PyFloat 0) (PyFloat 10)"
  let ?B = "BarbParameters (PyFloat 1) 3 (PyFloat 20) (PyFloat 30)"
  let ?G = "[(0, ?A), (1, ?B)] :: LineGraph"
  have inv: "graph_invar ?G" by (simp add: graph_invar_def)
  from three_anchors obtain bs where
    bs: "make_barb_curves ?pp [''a'', ''b'', ''c''] ?G = Inr bs"
    and infos: "map barb_info bs = [?A, BarbParameters (PyFloat (1 / 2)) 2 (PyFloat 10) (PyFloat 20), ?B]"
    by (elim exE conjE)
  have len: "(1::nat) \<le> length [''a'', ''b'', ''c'']" by simp
  from make_barb_curves_positions [OF len inv, of ?pp bs] bs
  have l3: "length bs = Suc (Suc (Suc 0))"
    and pos: "\<forall>i < Suc (Suc (Suc 0)).
               parameter_position (bs ! i) = normalized_position (Suc (Suc (Suc 0))) i"
    by simp_all
  from l3 obtain b0 b1 b2 where shape: "bs = [b0, b1, b2]"
    by (auto simp: length_Suc_conv)
  have "parameter_position b0 = 0" "parameter_position b1 = 1 / 2" "parameter_position b2 = 1"
    using pos [rule_format, of 0] pos [rule_format, of "Suc 0"] pos [rule_format, of "Suc (Suc 0)"]
    by (simp_all add: shape normalized_position_def)
  then have three: "map parameter_position bs = [0, 1 / 2, 1]"
    by (simp add: shape)
  have len1: "(1::nat) \<le> length [''a'']" by simp
  have d: "\<exists>c. draw_barb (0, 0, 0) ?A = Inr c" by (simp add: radians_def Let_def)
  from make_barb_curves_positions [OF len1 inv, of ?pp]
  have "make_barb_curves ?pp [''a''] ?G =
          (case draw_barb (0, 0, 0) ?A of
             Inl err \<Rightarrow> Inl err
           | Inr curve \<Rightarrow>
               Inr [\<lparr>parameter_position = 0, barb_info = ?A, curve_points = curve\<rparr>])"
    by simp
  with d have one: "\<exists>c. make_barb_curves ?pp [''a''] ?G
         = Inr [\<lparr>parameter_position = 0, barb_info = ?A, curve_points = c\<rparr>]"
    by auto
  have "\<exists>bs. make_barb_curves ?pp [''a'', ''b'', ''c''] ?G = Inr bs
          \<and> map parameter_position bs = [0, 1 / 2, 1]
          \<and> map barb_info bs =
               [?A, BarbParameters (PyFloat (1 / 2)) 2 (PyFloat 10) (PyFloat 20), ?B]"
    using bs three infos by (intro exI [of _ bs]) simp
  then show ?thesis using one by (rule conjI)
qed

text \<open>Two runs over two vertices each, with different names and world positions.\<close>

theorem resolved_records_deterministic_witness:
  "resolved_records (make_barb_curves (\<lambda>v. (0, 0, 0)) [''a'', ''b'']
       [(0, BarbParameters (PyFloat 0) 1 (PyFloat 0) (PyFloat 10)),
        (1, BarbParameters (PyFloat 1) 3 (PyFloat 20) (PyFloat 30))])
     = resolved_records (make_barb_curves (\<lambda>v. (1, 2, 3)) [''c'', ''d'']
       [(0, BarbParameters (PyFloat 0) 1 (PyFloat 0) (PyFloat 10)),
        (1, BarbParameters (PyFloat 1) 3 (PyFloat 20) (PyFloat 30))])
   \<and> resolved_records (make_barb_curves (\<lambda>v. (1, 2, 3)) [''c'', ''d'']
       [(0, BarbParameters (PyFloat 0) 1 (PyFloat 0) (PyFloat 10)),
        (1, BarbParameters (PyFloat 1) 3 (PyFloat 20) (PyFloat 30))])
     = Inr [(0, BarbParameters (PyFloat 0) 1 (PyFloat 0) (PyFloat 10)),
            (1, BarbParameters (PyFloat 1) 3 (PyFloat 20) (PyFloat 30))]"
proof -
  let ?A = "BarbParameters (PyFloat 0) 1 (PyFloat 0) (PyFloat 10)"
  let ?B = "BarbParameters (PyFloat 1) 3 (PyFloat 20) (PyFloat 30)"
  let ?G = "[(0, ?A), (1, ?B)] :: LineGraph"
  have len: "length [''a'', ''b''] = length [''c'', ''d'']" by simp
  have ev: "resolved_records (make_barb_curves (\<lambda>v. (1, 2, 3)) [''c'', ''d''] ?G)
              = Inr [(0, ?A), (1, ?B)]"
    by (simp add: resolved_records_def make_barb_curves_def py_div_def LineGraph_get_def
        dict_get_def radians_def Let_def)
  show ?thesis
    using resolved_records_deterministic [OF len, of "\<lambda>v. (0, 0, 0)" ?G "\<lambda>v. (1, 2, 3)"] ev
    by simp
qed

end
